theory Spec2Isabelle
  imports Complex_Main
begin

section \<open>Errors of the notebook\<close>

text \<open>
  The notebook \<^verbatim>\<open>2_Attention.ipynb\<close> is a Python script in two code cells. Nothing in
  it raises on purpose; the failures it can meet are those of the language and of the
  tensor library: a dictionary lookup of a missing key, a zero raised to a negative
  power, and the library's refusal of operands whose shapes do not fit.
\<close>

datatype error = KeyError | ZeroDivisionError | RuntimeError

section \<open>Cell 1: the character tokenizer\<close>

text \<open>
  \<^verbatim>\<open>vocab = string.whitespace + string.ascii_letters + string.digits + string.punctuation\<close>
  The four constants of Python's \<^verbatim>\<open>string\<close> module, character by character; those
  that an Isabelle string literal cannot hold are written by their code.
\<close>

definition whitespace :: string where
  "whitespace = [CHR 0x20, CHR 0x09, CHR 0x0A, CHR 0x0D, CHR 0x0B, CHR 0x0C]"

definition ascii_lowercase :: string where
  "ascii_lowercase = ''abcdefghijklmnopqrstuvwxyz''"

definition ascii_uppercase :: string where
  "ascii_uppercase = ''ABCDEFGHIJKLMNOPQRSTUVWXYZ''"

definition ascii_letters :: string where
  "ascii_letters = ascii_lowercase @ ascii_uppercase"

definition digits :: string where
  "digits = ''0123456789''"

definition punctuation :: string where
  "punctuation =
     [CHR 0x21, CHR 0x22, CHR 0x23, CHR 0x24, CHR 0x25, CHR 0x26, CHR 0x27, CHR 0x28,
      CHR 0x29, CHR 0x2A, CHR 0x2B, CHR 0x2C, CHR 0x2D, CHR 0x2E, CHR 0x2F,
      CHR 0x3A, CHR 0x3B, CHR 0x3C, CHR 0x3D, CHR 0x3E, CHR 0x3F, CHR 0x40,
      CHR 0x5B, CHR 0x5C, CHR 0x5D, CHR 0x5E, CHR 0x5F, CHR 0x60,
      CHR 0x7B, CHR 0x7C, CHR 0x7D, CHR 0x7E]"

definition vocab :: string where
  "vocab = whitespace @ ascii_letters @ digits @ punctuation"

definition vocab_size :: nat where
  "vocab_size = length vocab"

text \<open>
  \<^verbatim>\<open>enumerate(v)\<close> pairs every element with its position, counted from 0; positions are
  Python integers.
\<close>

definition enumerate_py :: "'a list \<Rightarrow> (int \<times> 'a) list" where
  "enumerate_py v = zip (map int [0..<length v]) v"

text \<open>
  A dictionary comprehension \<^verbatim>\<open>{k: v for ...}\<close> stores the pairs in the order the
  loop yields them; a key that comes again overwrites the earlier entry.
\<close>

definition dict_of :: "('k \<times> 'v) list \<Rightarrow> ('k \<rightharpoonup> 'v)" where
  "dict_of kvs = fold (\<lambda>(k, v) m. m(k \<mapsto> v)) kvs Map.empty"

text \<open>
  \<^verbatim>\<open>vtoi = { ch:i for i,ch in enumerate(vocab)}\<close> and
  \<^verbatim>\<open>itov = { i:ch for i,ch in enumerate(vocab)}\<close>.
\<close>

definition vtoi :: "char \<rightharpoonup> int" where
  "vtoi = dict_of (map (\<lambda>(i, ch). (ch, i)) (enumerate_py vocab))"

definition itov :: "int \<rightharpoonup> char" where
  "itov = dict_of (map (\<lambda>(i, ch). (i, ch)) (enumerate_py vocab))"

text \<open>
  A list comprehension over subscripts \<^verbatim>\<open>[d[k] for k in ks]\<close>: the first key that is
  missing from the dictionary raises \<^verbatim>\<open>KeyError\<close> and no list is returned.
\<close>

primrec lookup_all :: "('k \<rightharpoonup> 'v) \<Rightarrow> 'k list \<Rightarrow> error + 'v list" where
  "lookup_all d [] = Inr []"
| "lookup_all d (k # ks) =
     (case d k of
        None \<Rightarrow> Inl KeyError
      | Some v \<Rightarrow> (case lookup_all d ks of Inl e \<Rightarrow> Inl e | Inr vs \<Rightarrow> Inr (v # vs)))"

text \<open>
  \<^verbatim>\<open>encode = lambda v: [vtoi[ch] for ch in v]\<close> and
  \<^verbatim>\<open>decode = lambda t: [itov[i] for i in t]\<close>.
\<close>

definition encode :: "string \<Rightarrow> error + int list" where
  "encode v = lookup_all vtoi v"

definition decode :: "int list \<Rightarrow> error + string" where
  "decode t = lookup_all itov t"

text \<open>
  \<^verbatim>\<open>text = "Attention is all you need"\<close>, \<^verbatim>\<open>text_enc = encode(text)\<close> and
  \<^verbatim>\<open>data = torch.LongTensor(text_enc)\<close>. The script would stop at a \<^verbatim>\<open>KeyError\<close> here;
  lemma \<open>encode_text\<close> below shows that it does not, so \<open>text_enc\<close> is the list returned.
\<close>

definition text_src :: string where
  "text_src = ''Attention is all you need''"

definition text_enc :: "int list" where
  "text_enc = (case encode text_src of Inr t \<Rightarrow> t | Inl e \<Rightarrow> [])"

definition data :: "int list" where
  "data = text_enc"

text \<open>
  \<^verbatim>\<open>block_size = 4\<close>, \<^verbatim>\<open>n_embd = 5\<close>, \<^verbatim>\<open>batch_size = 2\<close>.
\<close>

definition block_size :: nat where
  "block_size = 4"

definition n_embd :: nat where
  "n_embd = 5"

definition batch_size :: nat where
  "batch_size = 2"

section \<open>Tensors\<close>

text \<open>
  A tensor carries its shape and its elements; the elements are kept as nested lists, row
  by row. The shape is stored because nested lists alone lose it when a dimension is 0
  (a tensor of shape (2, 0, 5) and one of shape (2, 0, 6) have the same rows). \<close>

record 'a tensor2 =
  shape2 :: "nat \<times> nat"
  rows2 :: "'a list list"

record 'a tensor3 =
  shape3 :: "nat \<times> nat \<times> nat"
  rows3 :: "'a list list list"

definition at2 :: "'a tensor2 \<Rightarrow> nat \<Rightarrow> nat \<Rightarrow> 'a" where
  "at2 t i j = rows2 t ! i ! j"

definition at3 :: "'a tensor3 \<Rightarrow> nat \<Rightarrow> nat \<Rightarrow> nat \<Rightarrow> 'a" where
  "at3 t b i j = rows3 t ! b ! i ! j"

text \<open>A tensor is well formed when its rows have the lengths its shape says.\<close>

definition wf2 :: "'a tensor2 \<Rightarrow> bool" where
  "wf2 t = (case shape2 t of (m, n) \<Rightarrow>
     length (rows2 t) = m \<and> list_all (\<lambda>r. length r = n) (rows2 t))"

definition wf3 :: "'a tensor3 \<Rightarrow> bool" where
  "wf3 t = (case shape3 t of (B, T, C) \<Rightarrow>
     length (rows3 t) = B \<and>
     list_all (\<lambda>m. length m = T \<and> list_all (\<lambda>r. length r = C) m) (rows3 t))"

text \<open>The tensor of a given shape whose element at an index is given by a function.\<close>

definition tabulate2 :: "nat \<Rightarrow> nat \<Rightarrow> (nat \<Rightarrow> nat \<Rightarrow> 'a) \<Rightarrow> 'a tensor2" where
  "tabulate2 m n f = \<lparr>shape2 = (m, n), rows2 = map (\<lambda>i. map (\<lambda>j. f i j) [0..<n]) [0..<m]\<rparr>"

definition tabulate3 :: "nat \<Rightarrow> nat \<Rightarrow> nat \<Rightarrow> (nat \<Rightarrow> nat \<Rightarrow> nat \<Rightarrow> 'a) \<Rightarrow> 'a tensor3" where
  "tabulate3 B T C f =
     \<lparr>shape3 = (B, T, C),
      rows3 = map (\<lambda>b. map (\<lambda>i. map (\<lambda>j. f b i j) [0..<C]) [0..<T]) [0..<B]\<rparr>"

section \<open>Cell 1: \<^verbatim>\<open>get_batch\<close>\<close>

text \<open>
  A slice \<^verbatim>\<open>t[lo:hi]\<close> of a one-dimensional tensor with bounds that are not negative:
  the elements from \<open>lo\<close> up to, not including, \<open>hi\<close>, as many as there are.
\<close>

definition slice :: "'a list \<Rightarrow> nat \<Rightarrow> nat \<Rightarrow> 'a list" where
  "slice t lo hi = drop lo (take hi t)"

text \<open>
  \<^verbatim>\<open>torch.stack\<close> of a list of one-dimensional tensors makes them the rows of a matrix;
  it refuses an empty list and tensors of different sizes.
\<close>

definition stack :: "'a list list \<Rightarrow> error + 'a tensor2" where
  "stack ts =
     (case ts of
        [] \<Rightarrow> Inl RuntimeError
      | t # _ \<Rightarrow>
          if list_all (\<lambda>u. length u = length t) ts
          then Inr \<lparr>shape2 = (length ts, length t), rows2 = ts\<rparr>
          else Inl RuntimeError)"

text \<open>
  \<^verbatim>\<open>torch.randint(0, high, (n,))\<close> draws \<open>n\<close> integers, each at least 0 and less than
  \<open>high\<close>. The draw is the one thing \<^verbatim>\<open>get_batch\<close> does not compute, so the model takes
  it as an argument; \<open>randint_draw\<close> says what the library promises of it.
\<close>

definition randint_draw :: "nat \<Rightarrow> nat \<Rightarrow> nat list \<Rightarrow> bool" where
  "randint_draw high n ix = (length ix = n \<and> list_all (\<lambda>i. i < high) ix)"

text \<open>
  \<^verbatim>\<open>
  def get_batch():
      ix = torch.randint(0, len(text_enc)-block_size-1, (block_size,))
      x = torch.stack([data[i:i+block_size] for i in ix])
      y = torch.stack([data[i+1:i+block_size+1] for i in ix])
      return x,y
  \<close>
\<close>

definition get_batch :: "nat list \<Rightarrow> error + (int tensor2 \<times> int tensor2)" where
  "get_batch ix =
     (case stack (map (\<lambda>i. slice data i (i + block_size)) ix) of
        Inl e \<Rightarrow> Inl e
      | Inr x \<Rightarrow>
          (case stack (map (\<lambda>i. slice data (i + 1) (i + block_size + 1)) ix) of
             Inl e \<Rightarrow> Inl e
           | Inr y \<Rightarrow> Inr (x, y)))"

section \<open>32-bit floats\<close>

text \<open>
  The tensors of cell 2 hold 32-bit floats. A float is a finite number, plus or minus
  infinity, or NaN. The model keeps what decides the cell's behaviour on large inputs:
  a result beyond the largest float \<open>FLT_MAX\<close> overflows to infinity, and the
  operations on infinities and NaN follow IEEE 754 (\<open>inf - inf\<close>, \<open>0 * inf\<close> and
  \<open>inf / inf\<close> are NaN, NaN spreads). A result within the range is kept as the real
  number it is: rounding to 24 bits (which also lets results up to half a step above
  \<open>FLT_MAX\<close> round down to it), underflow and the sign of zero are outside the model.
\<close>

datatype f32 = Fin real | PInf | NInf | NaN

definition FLT_MAX :: real where
  "FLT_MAX = 2 ^ 128 - 2 ^ 104"

definition to_f32 :: "real \<Rightarrow> f32" where
  "to_f32 r = (if FLT_MAX < r then PInf else if r < - FLT_MAX then NInf else Fin r)"




fun fneg :: "f32 \<Rightarrow> f32" where
  "fneg (Fin r) = Fin (- r)"
| "fneg PInf = NInf"
| "fneg NInf = PInf"
| "fneg NaN = NaN"

fun fadd :: "f32 \<Rightarrow> f32 \<Rightarrow> f32" where
  "fadd NaN y = NaN"
| "fadd x NaN = NaN"
| "fadd PInf NInf = NaN"
| "fadd NInf PInf = NaN"
| "fadd PInf y = PInf"
| "fadd x PInf = PInf"
| "fadd NInf y = NInf"
| "fadd x NInf = NInf"
| "fadd (Fin a) (Fin b) = to_f32 (a + b)"

definition fsub :: "f32 \<Rightarrow> f32 \<Rightarrow> f32" where
  "fsub x y = fadd x (fneg y)"

text \<open>The product of an infinity and a finite number: its sign, and NaN for 0.\<close>

definition inf_times :: "f32 \<Rightarrow> real \<Rightarrow> f32" where
  "inf_times x a = (if a = 0 then NaN else if 0 < a then x else fneg x)"

fun fmul :: "f32 \<Rightarrow> f32 \<Rightarrow> f32" where
  "fmul NaN y = NaN"
| "fmul x NaN = NaN"
| "fmul PInf PInf = PInf"
| "fmul PInf NInf = NInf"
| "fmul NInf PInf = NInf"
| "fmul NInf NInf = PInf"
| "fmul PInf (Fin b) = inf_times PInf b"
| "fmul NInf (Fin b) = inf_times NInf b"
| "fmul (Fin a) PInf = inf_times PInf a"
| "fmul (Fin a) NInf = inf_times NInf a"
| "fmul (Fin a) (Fin b) = to_f32 (a * b)"

text \<open>
  Division. The cell divides only in the softmax, by a sum that is never 0 (see
  \<open>softmax_row\<close>); with no sign of zero in the model, a division of a number other than
  0 by 0 takes the sign of the dividend.
\<close>

fun fdiv :: "f32 \<Rightarrow> f32 \<Rightarrow> f32" where
  "fdiv NaN y = NaN"
| "fdiv x NaN = NaN"
| "fdiv PInf PInf = NaN"
| "fdiv PInf NInf = NaN"
| "fdiv NInf PInf = NaN"
| "fdiv NInf NInf = NaN"
| "fdiv (Fin a) PInf = Fin 0"
| "fdiv (Fin a) NInf = Fin 0"
| "fdiv PInf (Fin b) = (if b < 0 then NInf else PInf)"
| "fdiv NInf (Fin b) = (if b < 0 then PInf else NInf)"
| "fdiv (Fin a) (Fin b) =
     (if b = 0 then (if a = 0 then NaN else if 0 < a then PInf else NInf)
      else to_f32 (a / b))"

fun fexp :: "f32 \<Rightarrow> f32" where
  "fexp (Fin r) = to_f32 (exp r)"
| "fexp PInf = PInf"
| "fexp NInf = Fin 0"
| "fexp NaN = NaN"

text \<open>The larger of two floats, as a maximum over a row takes it: NaN spreads.\<close>

fun fmax :: "f32 \<Rightarrow> f32 \<Rightarrow> f32" where
  "fmax NaN y = NaN"
| "fmax x NaN = NaN"
| "fmax PInf y = PInf"
| "fmax x PInf = PInf"
| "fmax NInf y = y"
| "fmax x NInf = x"
| "fmax (Fin a) (Fin b) = Fin (max a b)"

text \<open>
  A sum of floats, added one after the other from 0 in the order of the index. (The
  library does not promise an order; where a theorem below asks that a sum is finite, it
  is this sum.)
\<close>

definition fsum :: "f32 list \<Rightarrow> f32" where
  "fsum xs = foldl fadd (Fin 0) xs"

section \<open>The tensor operations of cell 2\<close>

text \<open>
  \<^verbatim>\<open>nn.Linear(C, head_size, bias=False)\<close> holds a weight matrix of shape
  (\<open>head_size\<close>, \<open>C\<close>) that the library fills with random numbers; the numbers drawn are
  an argument of the model.
\<close>

definition nn_Linear :: "nat \<Rightarrow> nat \<Rightarrow> (nat \<Rightarrow> nat \<Rightarrow> f32) \<Rightarrow> f32 tensor2" where
  "nn_Linear in_features out_features init = tabulate2 out_features in_features init"

text \<open>
  Applying the layer to a tensor of shape (B, T, C) multiplies every position's vector by
  the transposed weight; the library refuses an input whose last dimension is not the
  layer's \<open>in_features\<close>.
\<close>

definition F_linear :: "f32 tensor2 \<Rightarrow> f32 tensor3 \<Rightarrow> error + f32 tensor3" where
  "F_linear w x =
     (case shape3 x of (B, T, C) \<Rightarrow>
       (case shape2 w of (H, C') \<Rightarrow>
          if C \<noteq> C' then Inl RuntimeError
          else Inr (tabulate3 B T H
                 (\<lambda>b t h. fsum (map (\<lambda>c. fmul (at3 x b t c) (at2 w h c)) [0..<C])))))"

text \<open>\<^verbatim>\<open>k.transpose(-2, -1)\<close> swaps the last two dimensions.\<close>

definition transpose3 :: "'a tensor3 \<Rightarrow> 'a tensor3" where
  "transpose3 t = (case shape3 t of (B, T, H) \<Rightarrow> tabulate3 B H T (\<lambda>b h i. at3 t b i h))"

text \<open>
  Broadcasting: two sizes fit when they are equal or one of them is 1, and the
  dimension of size 1 is then read at index 0 throughout.
\<close>

definition broadcast_dim :: "nat \<Rightarrow> nat \<Rightarrow> nat option" where
  "broadcast_dim m n =
     (if m = n then Some m else if m = 1 then Some n else if n = 1 then Some m else None)"

definition bidx :: "nat \<Rightarrow> nat \<Rightarrow> nat" where
  "bidx d i = (if d = 1 then 0 else i)"

text \<open>
  \<^verbatim>\<open>a @ b\<close> on tensors with three dimensions is a matrix product for every batch
  element; the inner sizes must be equal and the batch sizes must fit.
\<close>

definition matmul :: "f32 tensor3 \<Rightarrow> f32 tensor3 \<Rightarrow> error + f32 tensor3" where
  "matmul a b =
     (case shape3 a of (Ba, n, m) \<Rightarrow>
       (case shape3 b of (Bb, m', p) \<Rightarrow>
          if m \<noteq> m' then Inl RuntimeError
          else (case broadcast_dim Ba Bb of
                  None \<Rightarrow> Inl RuntimeError
                | Some B \<Rightarrow>
                    Inr (tabulate3 B n p
                      (\<lambda>b' i j. fsum (map (\<lambda>h. fmul (at3 a (bidx Ba b') i h)
                                                     (at3 b (bidx Bb b') h j)) [0..<m]))))))"

text \<open>
  \<^verbatim>\<open>C ** -0.5\<close>: a Python integer that is not negative, raised to a float. Python
  raises \<^verbatim>\<open>ZeroDivisionError\<close> for zero to a negative power. The result is a Python
  number, not yet a 32-bit float.
\<close>

definition pow_float :: "nat \<Rightarrow> real \<Rightarrow> error + real" where
  "pow_float n y =
     (if n = 0 then (if y < 0 then Inl ZeroDivisionError else if y = 0 then Inr 1 else Inr 0)
      else Inr (real n powr y))"

text \<open>
  \<^verbatim>\<open>W * s\<close> with a Python number \<open>s\<close> multiplies every element by \<open>s\<close> as a 32-bit
  float.
\<close>

definition mul_scalar :: "f32 tensor3 \<Rightarrow> real \<Rightarrow> f32 tensor3" where
  "mul_scalar W s =
     (case shape3 W of (B, n, p) \<Rightarrow> tabulate3 B n p (\<lambda>b i j. fmul (at3 W b i j) (to_f32 s)))"

text \<open>
  \<^verbatim>\<open>torch.ones(m, n)\<close>; \<^verbatim>\<open>torch.tril\<close>, which keeps the elements on and below the
  diagonal and puts 0 above it; and the comparison \<^verbatim>\<open>t == 0\<close>, element by element.
  These tensors hold the numbers 0 and 1 only.
\<close>

definition ones :: "nat \<Rightarrow> nat \<Rightarrow> real tensor2" where
  "ones m n = tabulate2 m n (\<lambda>i j. 1)"

definition tril :: "real tensor2 \<Rightarrow> real tensor2" where
  "tril t = (case shape2 t of (m, n) \<Rightarrow> tabulate2 m n (\<lambda>i j. if j \<le> i then at2 t i j else 0))"

definition eq_zero :: "real tensor2 \<Rightarrow> bool tensor2" where
  "eq_zero t = (case shape2 t of (m, n) \<Rightarrow> tabulate2 m n (\<lambda>i j. at2 t i j = 0))"

text \<open>
  \<^verbatim>\<open>W.masked_fill(mask, float('-inf'))\<close> returns a new tensor with the fill value where
  the mask holds. The mask has two dimensions and is used for every batch element; the
  last two dimensions of the tensor and those of the mask are broadcast to a common
  shape.
\<close>

definition masked_fill :: "f32 tensor3 \<Rightarrow> bool tensor2 \<Rightarrow> f32 \<Rightarrow> error + f32 tensor3" where
  "masked_fill W m fill =
     (case shape3 W of (B, n, p) \<Rightarrow>
       (case shape2 m of (mn, mp) \<Rightarrow>
          (case broadcast_dim n mn of
             None \<Rightarrow> Inl RuntimeError
           | Some n' \<Rightarrow>
              (case broadcast_dim p mp of
                 None \<Rightarrow> Inl RuntimeError
               | Some p' \<Rightarrow>
                  Inr (tabulate3 B n' p'
                    (\<lambda>b i j. if at2 m (bidx mn i) (bidx mp j) then fill
                             else at3 W b (bidx n i) (bidx p j)))))))"

text \<open>
  \<^verbatim>\<open>F.softmax(W, dim=-1)\<close>, row by row: the library subtracts the row's maximum from
  every element, takes the exponentials and divides each by their sum. A row whose
  maximum is plus infinity, minus infinity or NaN becomes NaN throughout
  (\<open>inf - inf\<close>). When the maximum is finite its own exponential is 1, so the sum is at
  least 1.
\<close>

definition row_max :: "f32 list \<Rightarrow> f32" where
  "row_max xs = foldl fmax NInf xs"

definition softmax_row :: "f32 list \<Rightarrow> f32 list" where
  "softmax_row xs =
     (let m = row_max xs;
          es = map (\<lambda>x. fexp (fsub x m)) xs;
          s = fsum es
      in map (\<lambda>e. fdiv e s) es)"

definition softmax :: "f32 tensor3 \<Rightarrow> f32 tensor3" where
  "softmax W =
     (case shape3 W of (B, n, p) \<Rightarrow>
        tabulate3 B n p (\<lambda>b i j. softmax_row (map (\<lambda>j'. at3 W b i j') [0..<p]) ! j))"

section \<open>Cell 2: one head of attention\<close>

text \<open>
  \<^verbatim>\<open>head_size = 6\<close>
\<close>

definition head_size :: nat where
  "head_size = 6"

text \<open>
  The scores before the mask, with the layers \<^verbatim>\<open>key\<close> and \<^verbatim>\<open>query\<close> given by their
  weights:
  \<^verbatim>\<open>
  B,T,C = x.shape
  k = key(x) # B, T, head_size
  q = query(x) #B, T, head_size
  W = q @ k.transpose(-2, -1) # transpose the T and head_size so that B,T,h @ B,h,T -> B,T,T
  W = W * C ** -0.5 # sqrt of C to maintain std and variance
  \<close>
\<close>

definition scaled_scores :: "f32 tensor2 \<Rightarrow> f32 tensor2 \<Rightarrow> f32 tensor3 \<Rightarrow> error + f32 tensor3" where
  "scaled_scores key query x =
     (case shape3 x of (B, T, C) \<Rightarrow>
       (case F_linear key x of Inl e \<Rightarrow> Inl e | Inr k \<Rightarrow>
         (case F_linear query x of Inl e \<Rightarrow> Inl e | Inr q \<Rightarrow>
           (case matmul q (transpose3 k) of Inl e \<Rightarrow> Inl e | Inr W \<Rightarrow>
             (case pow_float C (- 0.5) of Inl e \<Rightarrow> Inl e | Inr s \<Rightarrow>
                Inr (mul_scalar W s))))))"

text \<open>
  The attention weights:
  \<^verbatim>\<open>
  tril = torch.tril(torch.ones(T,T))
  W = W.masked_fill(tril == 0, float('-inf'))
  W = F.softmax(W, dim=-1)
  \<close>
\<close>

definition attention_weights :: "f32 tensor2 \<Rightarrow> f32 tensor2 \<Rightarrow> f32 tensor3 \<Rightarrow> error + f32 tensor3" where
  "attention_weights key query x =
     (case shape3 x of (B, T, C) \<Rightarrow>
       (case scaled_scores key query x of Inl e \<Rightarrow> Inl e | Inr W \<Rightarrow>
         (case masked_fill W (eq_zero (tril (ones T T))) NInf of Inl e \<Rightarrow> Inl e | Inr W' \<Rightarrow>
            Inr (softmax W'))))"

text \<open>
  The output:
  \<^verbatim>\<open>
  v = value(x)
  out = W @ v
  \<close>
\<close>

definition attention :: "f32 tensor2 \<Rightarrow> f32 tensor2 \<Rightarrow> f32 tensor2 \<Rightarrow> f32 tensor3 \<Rightarrow> error + f32 tensor3" where
  "attention key query val x =
     (case attention_weights key query x of Inl e \<Rightarrow> Inl e | Inr W \<Rightarrow>
       (case F_linear val x of Inl e \<Rightarrow> Inl e | Inr v \<Rightarrow>
          matmul W v))"

text \<open>
  The cell as it stands builds the three layers from the input's own shape before it
  uses them:
  \<^verbatim>\<open>
  B,T,C = x.shape
  key = nn.Linear(C, head_size, bias=False)
  query = nn.Linear(C, head_size, bias=False)
  value = nn.Linear(C, head_size, bias=False)
  \<close>
  The head size and the numbers the three layers are filled with are arguments.
\<close>

definition attention_cell ::
  "nat \<Rightarrow> (nat \<Rightarrow> nat \<Rightarrow> f32) \<Rightarrow> (nat \<Rightarrow> nat \<Rightarrow> f32) \<Rightarrow> (nat \<Rightarrow> nat \<Rightarrow> f32) \<Rightarrow>
   f32 tensor3 \<Rightarrow> error + f32 tensor3" where
  "attention_cell hs init_k init_q init_v x =
     (case shape3 x of (B, T, C) \<Rightarrow>
        attention (nn_Linear C hs init_k) (nn_Linear C hs init_q) (nn_Linear C hs init_v) x)"



section \<open>Inputs to run the cell on\<close>

text \<open>
  An input of shape (B, T, 5) whose every position holds the vector (a, 0, 0, 0, 0), and
  initial weights with a single 1 in the corner of the matrix. With them every projected
  vector is (a, 0, 0, 0, 0, 0), and every query-key dot product is the square of \<open>a\<close>.
  \<open>ex_input\<close> has \<open>a = 1\<close>.
\<close>

definition ex_scaled :: "real \<Rightarrow> nat \<Rightarrow> nat \<Rightarrow> f32 tensor3" where
  "ex_scaled a B T = tabulate3 B T n_embd (\<lambda>b t c. if c = 0 then Fin a else Fin 0)"

definition ex_input :: "nat \<Rightarrow> nat \<Rightarrow> f32 tensor3" where
  "ex_input B T = ex_scaled 1 B T"

definition ex_init :: "nat \<Rightarrow> nat \<Rightarrow> f32" where
  "ex_init h c = (if h = 0 \<and> c = 0 then Fin 1 else Fin 0)"

definition ex_layer :: "f32 tensor2" where
  "ex_layer = nn_Linear n_embd head_size ex_init"

text \<open>
  A value layer that reads the second component of the input and multiplies it by 10,
  and an input that differs from \<open>ex_input 4 4\<close> in one number: batch element 0,
  position 3 has the second component \<open>10 ^ 38\<close>, a finite float whose tenfold is not.
  The layer \<open>ex_layer\<close> reads the first component only, so keys and queries are those
  of \<open>ex_input 4 4\<close>.
\<close>

definition ex_value_layer :: "f32 tensor2" where
  "ex_value_layer = nn_Linear n_embd head_size (\<lambda>h c. if h = 0 \<and> c = 1 then Fin 10 else Fin 0)"

definition ex_input_big :: "f32 tensor3" where
  "ex_input_big =
     tabulate3 4 4 n_embd
       (\<lambda>b t c. if c = 0 then Fin 1 else if b = 0 \<and> t = 3 \<and> c = 1 then Fin (10 ^ 38) else Fin 0)"


section \<open>The tokenizer round trip\<close>

lemma fold_upd_notin:
  "k \<notin> fst ` set kvs \<Longrightarrow> fold (\<lambda>(k, v) m. m(k \<mapsto> v)) kvs m k = m k"
  by (induction kvs arbitrary: m) (auto split: prod.splits)

lemma fold_upd_distinct:
  "distinct (map fst kvs) \<Longrightarrow> (k, v) \<in> set kvs \<Longrightarrow>
   fold (\<lambda>(k, v) m. m(k \<mapsto> v)) kvs m k = Some v"
proof (induction kvs arbitrary: m)
  case Nil
  then show ?case by simp
next
  case (Cons a kvs)
  obtain k' v' where a: "a = (k', v')" by (cases a)
  show ?case
  proof (cases "(k, v) \<in> set kvs")
    case True
    with Cons show ?thesis by (simp add: a)
  next
    case False
    with Cons.prems have kv: "k' = k" "v' = v" by (auto simp: a)
    from Cons.prems have "k \<notin> fst ` set kvs" by (auto simp: a kv)
    then have "fold (\<lambda>(k, v) m. m(k \<mapsto> v)) kvs (m(k \<mapsto> v)) k = (m(k \<mapsto> v)) k"
      by (rule fold_upd_notin)
    then show ?thesis by (simp add: a kv del: fun_upd_apply) simp
  qed
qed

lemma dict_of_distinct:
  "distinct (map fst kvs) \<Longrightarrow> (k, v) \<in> set kvs \<Longrightarrow> dict_of kvs k = Some v"
  unfolding dict_of_def by (rule fold_upd_distinct)

lemma dict_of_notin: "k \<notin> fst ` set kvs \<Longrightarrow> dict_of kvs k = None"
  unfolding dict_of_def by (simp add: fold_upd_notin)

lemma enumerate_py_set: "(i, x) \<in> set (enumerate_py v) \<longleftrightarrow> (\<exists>n < length v. i = int n \<and> x = v ! n)"
proof
  assume "(i, x) \<in> set (enumerate_py v)"
  then obtain n where "n < length v" "map int [0..<length v] ! n = i" "v ! n = x"
    unfolding enumerate_py_def by (auto simp: in_set_zip)
  then show "\<exists>n < length v. i = int n \<and> x = v ! n" by auto
next
  assume "\<exists>n < length v. i = int n \<and> x = v ! n"
  then obtain n where n: "n < length v" "i = int n" "x = v ! n" by blast
  then have "map int [0..<length v] ! n = i \<and> v ! n = x \<and> n < length (map int [0..<length v]) \<and> n < length v"
    by simp
  then show "(i, x) \<in> set (enumerate_py v)"
    unfolding enumerate_py_def in_set_zip by (intro exI [of _ n]) simp
qed

lemma enumerate_py_fst: "map fst (enumerate_py v) = map int [0..<length v]"
  unfolding enumerate_py_def by simp

lemma enumerate_py_snd: "map snd (enumerate_py v) = v"
  unfolding enumerate_py_def by simp

lemma distinct_vocab: "distinct vocab"
  unfolding vocab_def whitespace_def ascii_letters_def ascii_lowercase_def
    ascii_uppercase_def digits_def punctuation_def
  by simp

lemma vtoi_nth: "n < length vocab \<Longrightarrow> vtoi (vocab ! n) = Some (int n)"
proof -
  assume n: "n < length vocab"
  have "map fst (map (\<lambda>(i, ch). (ch, i)) (enumerate_py vocab)) = map snd (enumerate_py vocab)"
    by (simp add: case_prod_beta comp_def)
  then have d: "distinct (map fst (map (\<lambda>(i, ch). (ch, i)) (enumerate_py vocab)))"
    using distinct_vocab by (simp only: enumerate_py_snd)
  have "(int n, vocab ! n) \<in> set (enumerate_py vocab)"
    using n by (auto simp: enumerate_py_set)
  then have "(vocab ! n, int n) \<in> set (map (\<lambda>(i, ch). (ch, i)) (enumerate_py vocab))"
    by force
  with d show ?thesis unfolding vtoi_def by (rule dict_of_distinct)
qed

lemma itov_nth: "n < length vocab \<Longrightarrow> itov (int n) = Some (vocab ! n)"
proof -
  assume n: "n < length vocab"
  have "map fst (map (\<lambda>(i, ch). (i, ch)) (enumerate_py vocab)) = map int [0..<length vocab]"
    by (simp add: case_prod_beta comp_def enumerate_py_fst [symmetric])
  then have d: "distinct (map fst (map (\<lambda>(i, ch). (i, ch)) (enumerate_py vocab)))"
    by (simp add: distinct_map inj_on_def)
  have "(int n, vocab ! n) \<in> set (map (\<lambda>(i, ch). (i, ch)) (enumerate_py vocab))"
    using n by (auto simp: enumerate_py_set)
  with d show ?thesis unfolding itov_def by (rule dict_of_distinct)
qed

lemma vtoi_outside: "ch \<notin> set vocab \<Longrightarrow> vtoi ch = None"
proof -
  assume "ch \<notin> set vocab"
  then have "ch \<notin> fst ` set (map (\<lambda>(i, ch). (ch, i)) (enumerate_py vocab))"
    by (auto simp: enumerate_py_set)
  then show ?thesis unfolding vtoi_def by (rule dict_of_notin)
qed

lemma encode_in_vocab:
  "set s \<subseteq> set vocab \<Longrightarrow> \<exists>t. encode s = Inr t \<and> decode t = Inr s"
proof (induction s)
  case Nil
  then show ?case by (simp add: encode_def decode_def)
next
  case (Cons ch s)
  from Cons.prems obtain n where n: "n < length vocab" "ch = vocab ! n"
    by (auto simp: in_set_conv_nth)
  from Cons obtain t where t: "encode s = Inr t" "decode t = Inr s" by auto
  have "encode (ch # s) = Inr (int n # t)"
    using t(1) n by (simp add: encode_def vtoi_nth)
  moreover have "decode (int n # t) = Inr (ch # s)"
    using t(2) n by (simp add: decode_def itov_nth)
  ultimately show ?case by blast
qed

lemma encode_outside_vocab:
  "\<not> set s \<subseteq> set vocab \<Longrightarrow> encode s = Inl KeyError"
proof (induction s)
  case Nil
  then show ?case by simp
next
  case (Cons ch s)
  show ?case
  proof (cases "ch \<in> set vocab")
    case False
    then show ?thesis by (simp add: encode_def vtoi_outside)
  next
    case True
    with Cons.prems have "\<not> set s \<subseteq> set vocab" by auto
    then have "encode s = Inl KeyError" by (rule Cons.IH)
    then show ?thesis by (simp add: encode_def split: option.splits)
  qed
qed

lemma text_in_vocab: "set text_src \<subseteq> set vocab"
  unfolding text_src_def vocab_def whitespace_def ascii_letters_def ascii_lowercase_def
    ascii_uppercase_def digits_def punctuation_def
  by simp

lemma nul_outside_vocab: "\<not> set [CHR 0x00] \<subseteq> set vocab"
  unfolding vocab_def whitespace_def ascii_letters_def ascii_lowercase_def
    ascii_uppercase_def digits_def punctuation_def
  by simp

text \<open>
  Claim C9. Every string whose characters all belong to the vocabulary is encoded, and
  decoding the tokens gives back the list of its characters; a string with a character
  outside the vocabulary is not coerced: \<^verbatim>\<open>encode\<close> raises \<^verbatim>\<open>KeyError\<close>, and such a
  string exists. (A Python string holds Unicode code points; the vocabulary is ASCII, so
  the strings over it are strings of 8-bit characters, and the character outside it is
  taken among these.)
\<close>

theorem encode_decode_round_trip:
  "(set s \<subseteq> set vocab \<longrightarrow> (\<exists>t. encode s = Inr t \<and> decode t = Inr s)) \<and>
   (\<not> set s \<subseteq> set vocab \<longrightarrow> encode s = Inl KeyError) \<and>
   (\<exists>s'. \<not> set s' \<subseteq> set vocab \<and> encode s' = Inl KeyError)"
proof (intro conjI impI)
  assume "set s \<subseteq> set vocab"
  then show "\<exists>t. encode s = Inr t \<and> decode t = Inr s" by (rule encode_in_vocab)
next
  assume "\<not> set s \<subseteq> set vocab"
  then show "encode s = Inl KeyError" by (rule encode_outside_vocab)
next
  have "\<not> set [CHR 0x00] \<subseteq> set vocab"
    unfolding vocab_def whitespace_def ascii_letters_def ascii_lowercase_def
      ascii_uppercase_def digits_def punctuation_def
    by simp
  then show "\<exists>s'. \<not> set s' \<subseteq> set vocab \<and> encode s' = Inl KeyError"
    using encode_outside_vocab by blast
qed

theorem encode_decode_round_trip_witness:
  "(\<exists>t. encode text_src = Inr t \<and> decode t = Inr text_src) \<and>
   encode [CHR 0x00] = Inl KeyError"
  using encode_decode_round_trip [of text_src] encode_decode_round_trip [of "[CHR 0x00]"]
    text_in_vocab nul_outside_vocab
  by blast

section \<open>The batches of \<^verbatim>\<open>get_batch\<close>\<close>

lemma lookup_all_length: "lookup_all d ks = Inr vs \<Longrightarrow> length vs = length ks"
  by (induction ks arbitrary: vs) (auto split: option.splits sum.splits)

lemma encode_text: "encode text_src = Inr text_enc"
proof -
  from encode_in_vocab [OF text_in_vocab] obtain t where "encode text_src = Inr t" by blast
  then show ?thesis by (simp add: text_enc_def)
qed

lemma length_text_enc: "length text_enc = 25"
proof -
  have "length text_enc = length text_src"
    using encode_text unfolding encode_def by (rule lookup_all_length)
  then show ?thesis by (simp add: text_src_def)
qed

lemma length_slice: "hi \<le> length t \<Longrightarrow> length (slice t lo hi) = hi - lo"
  by (simp add: slice_def)

lemma nth_slice: "hi \<le> length t \<Longrightarrow> lo + n < hi \<Longrightarrow> slice t lo hi ! n = t ! (lo + n)"
  by (simp add: slice_def)

lemma stack_eq:
  "ts \<noteq> [] \<Longrightarrow> list_all (\<lambda>u. length u = n) ts \<Longrightarrow>
   stack ts = Inr \<lparr>shape2 = (length ts, n), rows2 = ts\<rparr>"
  by (cases ts) (auto simp: stack_def list_all_iff)

text \<open>
  Claim C10. Whatever \<^verbatim>\<open>torch.randint\<close> draws, \<^verbatim>\<open>get_batch\<close> returns two tensors of
  shape (\<open>block_size\<close>, \<open>block_size\<close>) = (4, 4): the number of rows is \<open>block_size\<close>,
  the size of the draw, and not \<open>batch_size\<close> = 2, which \<^verbatim>\<open>get_batch\<close> does not read.
  Row \<open>n\<close> of \<open>y\<close> is row \<open>n\<close> of \<open>x\<close> moved one position on:
  \<open>y[n][t] = x[n][t+1]\<close> for \<open>t < block_size - 1\<close>.
\<close>

theorem get_batch_shape_and_shift:
  assumes draw: "randint_draw (length text_enc - block_size - 1) block_size ix"
  shows "\<exists>x y. get_batch ix = Inr (x, y) \<and>
           shape2 x = (block_size, block_size) \<and> wf2 x \<and>
           shape2 y = (block_size, block_size) \<and> wf2 y \<and>
           block_size = 4 \<and> batch_size = 2 \<and>
           (\<forall>n<block_size. \<forall>t<block_size - 1. at2 y n t = at2 x n (t + 1))"
proof -
  let ?xs = "map (\<lambda>i. slice data i (i + block_size)) ix"
  let ?ys = "map (\<lambda>i. slice data (i + 1) (i + block_size + 1)) ix"
  let ?x = "\<lparr>shape2 = (block_size, block_size), rows2 = ?xs\<rparr>"
  let ?y = "\<lparr>shape2 = (block_size, block_size), rows2 = ?ys\<rparr>"
  from draw have len: "length ix = 4" and lt: "\<And>i. i \<in> set ix \<Longrightarrow> i < 20"
    by (auto simp: randint_draw_def list_all_iff length_text_enc block_size_def)
  have d: "length data = 25" by (simp add: data_def length_text_enc)
  have ne: "ix \<noteq> []" using len by auto
  have lx: "list_all (\<lambda>u. length u = block_size) ?xs"
    using lt by (auto simp: list_all_iff length_slice d block_size_def dest!: lt)
  have ly: "list_all (\<lambda>u. length u = block_size) ?ys"
    using lt by (auto simp: list_all_iff length_slice d block_size_def dest!: lt)
  have sx: "stack ?xs = Inr ?x"
    using stack_eq [OF _ lx] ne len by (simp add: block_size_def)
  have sy: "stack ?ys = Inr ?y"
    using stack_eq [OF _ ly] ne len by (simp add: block_size_def)
  have gb: "get_batch ix = Inr (?x, ?y)"
    using sx sy by (simp add: get_batch_def)
  have shift: "at2 ?y n t = at2 ?x n (t + 1)" if n: "n < block_size" and t: "t < block_size - 1" for n t
  proof -
    have i: "ix ! n < 20" using n len by (intro lt) (simp add: block_size_def)
    have "slice data (ix ! n + 1) (ix ! n + block_size + 1) ! t = data ! (ix ! n + 1 + t)"
      using i t by (intro nth_slice) (simp_all add: d block_size_def)
    moreover have "slice data (ix ! n) (ix ! n + block_size) ! (t + 1) = data ! (ix ! n + (t + 1))"
      using i t by (intro nth_slice) (simp_all add: d block_size_def)
    ultimately show ?thesis using n len by (simp add: at2_def block_size_def add_ac)
  qed
  show ?thesis
  proof (intro exI conjI allI impI)
    show "get_batch ix = Inr (?x, ?y)" by (rule gb)
    show "shape2 ?x = (block_size, block_size)" by simp
    show "shape2 ?y = (block_size, block_size)" by simp
    show "wf2 ?x" using lx len by (simp add: wf2_def block_size_def)
    show "wf2 ?y" using ly len by (simp add: wf2_def block_size_def)
    show "block_size = 4" by (simp add: block_size_def)
    show "batch_size = 2" by (simp add: batch_size_def)
  next
    fix n t assume "n < block_size" "t < block_size - 1"
    then show "at2 ?y n t = at2 ?x n (t + 1)" by (rule shift)
  qed
qed

theorem get_batch_shape_and_shift_witness:
  "randint_draw (length text_enc - block_size - 1) block_size [0, 3, 19, 7] \<and>
   (\<exists>x y. get_batch [0, 3, 19, 7] = Inr (x, y) \<and> shape2 x = (4, 4) \<and> shape2 y = (4, 4) \<and>
      at2 y 2 0 = at2 x 2 1 \<and> at2 y 2 2 = at2 x 2 3)"
proof -
  have draw: "randint_draw (length text_enc - block_size - 1) block_size [0, 3, 19, 7]"
    by (simp add: randint_draw_def length_text_enc block_size_def)
  from get_batch_shape_and_shift [OF draw] obtain x y where
    "get_batch [0, 3, 19, 7] = Inr (x, y)" "shape2 x = (block_size, block_size)"
    "shape2 y = (block_size, block_size)"
    "\<forall>n<block_size. \<forall>t<block_size - 1. at2 y n t = at2 x n (t + 1)"
    by blast
  then have "get_batch [0, 3, 19, 7] = Inr (x, y) \<and> shape2 x = (4, 4) \<and> shape2 y = (4, 4) \<and>
      at2 y 2 0 = at2 x 2 1 \<and> at2 y 2 2 = at2 x 2 3"
    by (simp add: block_size_def)
  with draw show ?thesis by blast
qed

section \<open>Reading the tensors the operations build\<close>

lemma shape3_tabulate3 [simp]: "shape3 (tabulate3 B T C f) = (B, T, C)"
  by (simp add: tabulate3_def)

lemma shape2_tabulate2 [simp]: "shape2 (tabulate2 m n f) = (m, n)"
  by (simp add: tabulate2_def)

lemma at3_tabulate3 [simp]:
  "b < B \<Longrightarrow> i < T \<Longrightarrow> j < C \<Longrightarrow> at3 (tabulate3 B T C f) b i j = f b i j"
  by (simp add: tabulate3_def at3_def)

lemma at2_tabulate2 [simp]: "i < m \<Longrightarrow> j < n \<Longrightarrow> at2 (tabulate2 m n f) i j = f i j"
  by (simp add: tabulate2_def at2_def)

lemma wf3_tabulate3 [simp]: "wf3 (tabulate3 B T C f)"
  by (simp add: tabulate3_def wf3_def list_all_iff)

lemma wf2_tabulate2 [simp]: "wf2 (tabulate2 m n f)"
  by (simp add: tabulate2_def wf2_def list_all_iff)

lemma bidx_less [simp]: "i < d \<Longrightarrow> bidx d i = i"
  by (auto simp: bidx_def)

lemma broadcast_dim_same [simp]: "broadcast_dim n n = Some n"
  by (simp add: broadcast_dim_def)

lemma map_upt_cong: "(\<And>j. j < n \<Longrightarrow> f j = g j) \<Longrightarrow> map f [0..<n] = map g [0..<n]"
  by simp

section \<open>Sums, maxima and the softmax of a row of floats\<close>

lemma FLT_MAX_ge_1: "1 \<le> FLT_MAX"
  by (simp add: FLT_MAX_def)

lemma to_f32_fin: "\<bar>r\<bar> \<le> FLT_MAX \<Longrightarrow> to_f32 r = Fin r"
  by (auto simp: to_f32_def)






section \<open>The stages of the attention cell, element by element\<close>

lemma nn_Linear_shape [simp]: "shape2 (nn_Linear C hs init) = (hs, C)"
  by (simp add: nn_Linear_def)

lemma F_linear_eq:
  "shape3 x = (B, T, C) \<Longrightarrow> shape2 w = (H, C) \<Longrightarrow>
   F_linear w x =
     Inr (tabulate3 B T H (\<lambda>b t h. fsum (map (\<lambda>c. fmul (at3 x b t c) (at2 w h c)) [0..<C])))"
  by (simp add: F_linear_def)

lemma F_linear_shape:
  "shape3 x = (B, T, C) \<Longrightarrow> shape2 w = (H, C) \<Longrightarrow>
   \<exists>k. F_linear w x = Inr k \<and> shape3 k = (B, T, H)"
  by (simp add: F_linear_eq)

lemma matmul_eq:
  "shape3 a = (B, n, m) \<Longrightarrow> shape3 b = (B, m, p) \<Longrightarrow>
   matmul a b =
     Inr (tabulate3 B n p
       (\<lambda>b' i j. fsum (map (\<lambda>h. fmul (at3 a (bidx B b') i h) (at3 b (bidx B b') h j)) [0..<m])))"
  by (simp add: matmul_def)

lemma matmul_elem:
  assumes "shape3 a = (B, n, m)" "shape3 b = (B, m, p)"
  shows "\<exists>c. matmul a b = Inr c \<and> shape3 c = (B, n, p) \<and> wf3 c \<and>
           (\<forall>b'<B. \<forall>i<n. \<forall>j<p.
              at3 c b' i j = fsum (map (\<lambda>h. fmul (at3 a b' i h) (at3 b b' h j)) [0..<m]))"
  using assms by (simp add: matmul_eq)

lemma pow_float_pos: "0 < C \<Longrightarrow> pow_float C y = Inr (real C powr y)"
  by (simp add: pow_float_def)

lemma scaled_scores_char:
  assumes x: "shape3 x = (B, T, C)" and k: "shape2 key = (H, C)" and q: "shape2 query = (H, C)"
    and C: "0 < C"
  shows "\<exists>W q k. scaled_scores key query x = Inr W \<and> F_linear query x = Inr q \<and> F_linear key x = Inr k \<and>
           shape3 W = (B, T, T) \<and> wf3 W \<and>
           (\<forall>b<B. \<forall>i<T. \<forall>j<T.
              at3 W b i j = fmul (fsum (map (\<lambda>h. fmul (at3 q b i h) (at3 k b j h)) [0..<H]))
                                 (to_f32 (real C powr (- 1 / 2))))"
proof -
  let ?k = "tabulate3 B T H (\<lambda>b t h. fsum (map (\<lambda>c. fmul (at3 x b t c) (at2 key h c)) [0..<C]))"
  let ?q = "tabulate3 B T H (\<lambda>b t h. fsum (map (\<lambda>c. fmul (at3 x b t c) (at2 query h c)) [0..<C]))"
  have lk: "F_linear key x = Inr ?k" using x k by (rule F_linear_eq)
  have lq: "F_linear query x = Inr ?q" using x q by (rule F_linear_eq)
  have "shape3 (transpose3 ?k) = (B, H, T)" by (simp add: transpose3_def)
  from matmul_elem [OF _ this, of ?q T] obtain W where
    mm: "matmul ?q (transpose3 ?k) = Inr W" and sh: "shape3 W = (B, T, T)" and
    el: "\<forall>b'<B. \<forall>i<T. \<forall>j<T.
      at3 W b' i j = fsum (map (\<lambda>h. fmul (at3 ?q b' i h) (at3 (transpose3 ?k) b' h j)) [0..<H])"
    by auto
  let ?s = "real C powr (- 1 / 2)"
  have ss: "scaled_scores key query x = Inr (mul_scalar W ?s)"
    unfolding scaled_scores_def using C by (simp add: x lk lq mm pow_float_pos)
  have el': "at3 (mul_scalar W ?s) b i j
      = fmul (fsum (map (\<lambda>h. fmul (at3 ?q b i h) (at3 ?k b j h)) [0..<H])) (to_f32 ?s)"
    if b: "b < B" and i: "i < T" and j: "j < T" for b i j
  proof -
    have eq: "map (\<lambda>h. fmul (at3 ?q b i h) (at3 (transpose3 ?k) b h j)) [0..<H]
        = map (\<lambda>h. fmul (at3 ?q b i h) (at3 ?k b j h)) [0..<H]"
      using b i j by (intro map_upt_cong) (simp add: transpose3_def)
    have "at3 (mul_scalar W ?s) b i j = fmul (at3 W b i j) (to_f32 ?s)"
      using b i j by (simp add: mul_scalar_def sh)
    also have "at3 W b i j
        = fsum (map (\<lambda>h. fmul (at3 ?q b i h) (at3 (transpose3 ?k) b h j)) [0..<H])"
      using el b i j by blast
    finally show ?thesis by (simp only: eq)
  qed
  show ?thesis
  proof (intro exI conjI allI impI)
    show "scaled_scores key query x = Inr (mul_scalar W ?s)" by (rule ss)
    show "F_linear query x = Inr ?q" by (rule lq)
    show "F_linear key x = Inr ?k" by (rule lk)
    show "shape3 (mul_scalar W ?s) = (B, T, T)" by (simp add: mul_scalar_def sh)
    show "wf3 (mul_scalar W ?s)" by (simp add: mul_scalar_def sh)
  next
    fix b i j assume "b < B" "i < T" "j < T"
    then show "at3 (mul_scalar W ?s) b i j
      = fmul (fsum (map (\<lambda>h. fmul (at3 ?q b i h) (at3 ?k b j h)) [0..<H])) (to_f32 ?s)"
      by (rule el')
  qed
qed

lemma mask_entry:
  "i < T \<Longrightarrow> j < T \<Longrightarrow> at2 (eq_zero (tril (ones T T))) i j = (i < j)"
  by (auto simp: eq_zero_def tril_def ones_def)

lemma masked_fill_eq:
  "shape3 W = (B, n, p) \<Longrightarrow> shape2 m = (n, p) \<Longrightarrow>
   masked_fill W m fill =
     Inr (tabulate3 B n p
       (\<lambda>b i j. if at2 m (bidx n i) (bidx p j) then fill else at3 W b (bidx n i) (bidx p j)))"
  by (simp add: masked_fill_def)

text \<open>
  The weights: row \<open>i\<close> of batch element \<open>b\<close> is the softmax of the scores of that
  row with minus infinity after position \<open>i\<close>.
\<close>

lemma attention_weights_char:
  assumes x: "shape3 x = (B, T, C)" and k: "shape2 key = (H, C)" and q: "shape2 query = (H, C)"
    and C: "0 < C"
  shows "\<exists>W S. scaled_scores key query x = Inr S \<and> attention_weights key query x = Inr W \<and>
           shape3 W = (B, T, T) \<and> wf3 W \<and>
           (\<forall>b<B. \<forall>i<T. \<forall>j<T.
              at3 W b i j =
                softmax_row (map (\<lambda>j'. if i < j' then NInf else at3 S b i j') [0..<T]) ! j)"
proof -
  from scaled_scores_char [OF x k q C] obtain S where
    S: "scaled_scores key query x = Inr S" and sh: "shape3 S = (B, T, T)" by blast
  let ?M = "tabulate3 B T T (\<lambda>b i j.
      if at2 (eq_zero (tril (ones T T))) (bidx T i) (bidx T j) then NInf
      else at3 S b (bidx T i) (bidx T j))"
  have mf: "masked_fill S (eq_zero (tril (ones T T))) NInf = Inr ?M"
    using sh by (rule masked_fill_eq) (simp add: eq_zero_def tril_def ones_def)
  have aw: "attention_weights key query x = Inr (softmax ?M)"
    unfolding attention_weights_def by (simp add: x S mf)
  have el: "at3 (softmax ?M) b i j =
      softmax_row (map (\<lambda>j'. if i < j' then NInf else at3 S b i j') [0..<T]) ! j"
    if b: "b < B" and i: "i < T" and j: "j < T" for b i j
  proof -
    have eq: "map (\<lambda>j'. at3 ?M b i j') [0..<T]
        = map (\<lambda>j'. if i < j' then NInf else at3 S b i j') [0..<T]"
      using b i by (intro map_upt_cong) (simp add: mask_entry)
    have "at3 (softmax ?M) b i j = softmax_row (map (\<lambda>j'. at3 ?M b i j') [0..<T]) ! j"
      using b i j by (simp add: softmax_def)
    then show ?thesis by (simp only: eq)
  qed
  show ?thesis
  proof (intro exI conjI allI impI)
    show "scaled_scores key query x = Inr S" by (rule S)
    show "attention_weights key query x = Inr (softmax ?M)" by (rule aw)
    show "shape3 (softmax ?M) = (B, T, T)" by (simp add: softmax_def)
    show "wf3 (softmax ?M)" by (simp add: softmax_def)
  next
    fix b i j assume "b < B" "i < T" "j < T"
    then show "at3 (softmax ?M) b i j =
      softmax_row (map (\<lambda>j'. if i < j' then NInf else at3 S b i j') [0..<T]) ! j"
      by (rule el)
  qed
qed

lemma attention_char:
  assumes x: "shape3 x = (B, T, C)" and k: "shape2 key = (H, C)" and q: "shape2 query = (H, C)"
    and v: "shape2 val = (H', C)" and C: "0 < C"
  shows "\<exists>W v out. attention_weights key query x = Inr W \<and> F_linear val x = Inr v \<and>
           attention key query val x = Inr out \<and> matmul W v = Inr out \<and>
           shape3 v = (B, T, H') \<and> shape3 out = (B, T, H') \<and> wf3 out \<and>
           (\<forall>b<B. \<forall>i<T. \<forall>h<H'.
              at3 out b i h = fsum (map (\<lambda>j. fmul (at3 W b i j) (at3 v b j h)) [0..<T]))"
proof -
  from attention_weights_char [OF x k q C] obtain W where
    W: "attention_weights key query x = Inr W" and sh: "shape3 W = (B, T, T)" by blast
  from F_linear_shape [OF x v] obtain v where
    lv: "F_linear val x = Inr v" and shv: "shape3 v = (B, T, H')" by blast
  from matmul_elem [OF sh shv] obtain out where
    mm: "matmul W v = Inr out" and sho: "shape3 out = (B, T, H')" and wfo: "wf3 out" and
    el: "\<forall>b'<B. \<forall>i<T. \<forall>j<H'.
      at3 out b' i j = fsum (map (\<lambda>h. fmul (at3 W b' i h) (at3 v b' h j)) [0..<T])"
    by blast
  have att: "attention key query val x = Inr out"
    unfolding attention_def by (simp add: W lv mm)
  from W lv att mm shv sho wfo el show ?thesis by blast
qed

section \<open>The cell on the inputs above\<close>

lemma to_f32_0 [simp]: "to_f32 0 = Fin 0"
  by (simp add: to_f32_def FLT_MAX_def)

lemma to_f32_1 [simp]: "to_f32 1 = Fin 1"
  by (simp add: to_f32_def FLT_MAX_def)

lemma ex_shapes [simp]:
  "shape3 (ex_scaled a B T) = (B, T, 5)" "shape3 (ex_input B T) = (B, T, 5)"
  "shape2 ex_layer = (6, 5)" "shape2 ex_value_layer = (6, 5)" "shape3 ex_input_big = (4, 4, 5)"
  by (simp_all add: ex_scaled_def ex_input_def ex_layer_def ex_value_layer_def ex_input_big_def
      n_embd_def head_size_def)

lemma inv_sqrt_le_1: "0 < C \<Longrightarrow> real C powr (- 1 / 2) \<le> 1"
proof -
  assume "0 < C"
  then have "1 \<le> real C" by simp
  then have "real C powr (- 1 / 2) \<le> real C powr 0" by (intro powr_mono) simp_all
  then show ?thesis using \<open>0 < C\<close> by simp
qed

lemma inv_sqrt_pos: "0 < C \<Longrightarrow> 0 < real C powr (- 1 / 2)"
  by simp

lemma to_f32_inv_sqrt: "0 < C \<Longrightarrow> to_f32 (real C powr (- 1 / 2)) = Fin (real C powr (- 1 / 2))"
proof (rule to_f32_fin)
  assume C: "0 < C"
  have "\<bar>real C powr (- 1 / 2)\<bar> = real C powr (- 1 / 2)" by simp
  with inv_sqrt_le_1 [OF C] FLT_MAX_ge_1 show "\<bar>real C powr (- 1 / 2)\<bar> \<le> FLT_MAX" by linarith
qed

text \<open>The projections of the input \<open>ex_scaled a\<close> by the layer \<open>ex_layer\<close>.\<close>

lemma ex_projection:
  assumes "b < B" "t < T" "h < 6" "\<bar>a\<bar> \<le> FLT_MAX"
  shows "fsum (map (\<lambda>c. fmul (at3 (ex_scaled a B T) b t c) (at2 ex_layer h c)) [0..<5])
           = (if h = 0 then Fin a else Fin 0)"
proof -
  have "map (\<lambda>c. fmul (at3 (ex_scaled a B T) b t c) (at2 ex_layer h c)) [0..<5]
      = map (\<lambda>c. fmul (if c = 0 then Fin a else Fin 0) (ex_init h c)) [0..<5]"
    using assms
    by (intro map_upt_cong) (simp add: ex_scaled_def ex_layer_def nn_Linear_def n_embd_def head_size_def)
  also have "fsum \<dots> = (if h = 0 then Fin a else Fin 0)"
    using assms(4) by (simp add: fsum_def ex_init_def upt_conv_Cons to_f32_fin)
  finally show ?thesis .
qed

lemma ex_dot:
  "fsum (map (\<lambda>h. fmul (if h = 0 then Fin a else Fin 0) (if h = 0 then Fin a else Fin 0)) [0..<6])
     = to_f32 (a * a)"
  using FLT_MAX_ge_1 zero_le_square [of a]
  by (cases "to_f32 (a * a)") (auto simp: fsum_def upt_conv_Cons to_f32_def split: if_splits)

lemma ex_q:
  assumes "\<bar>a\<bar> \<le> FLT_MAX" and "F_linear ex_layer (ex_scaled a B T) = Inr q"
    and "b < B" "t < T" "h < 6"
  shows "at3 q b t h = (if h = 0 then Fin a else Fin 0)"
proof -
  have "q = tabulate3 B T 6
      (\<lambda>b t h. fsum (map (\<lambda>c. fmul (at3 (ex_scaled a B T) b t c) (at2 ex_layer h c)) [0..<5]))"
    using assms(2) F_linear_eq [OF ex_shapes(1) ex_shapes(3), of a B T] by simp
  then show ?thesis using assms by (simp add: ex_projection)
qed

text \<open>Every score of that input is the square of \<open>a\<close>, as a float, times the scale.\<close>

lemma ex_scores:
  assumes a: "\<bar>a\<bar> \<le> FLT_MAX" and S: "scaled_scores ex_layer ex_layer (ex_scaled a B T) = Inr S"
    and "b < B" "i < T" "j < T"
  shows "at3 S b i j = fmul (to_f32 (a * a)) (Fin (5 powr (- 1 / 2)))"
proof -
  have C: "0 < (5::nat)" by simp
  from scaled_scores_char [OF ex_shapes(1) ex_shapes(3) ex_shapes(3) C, of a B T] S
  obtain q k where
    q: "F_linear ex_layer (ex_scaled a B T) = Inr q" and
    k: "F_linear ex_layer (ex_scaled a B T) = Inr k" and
    el: "\<forall>b<B. \<forall>i<T. \<forall>j<T.
      at3 S b i j = fmul (fsum (map (\<lambda>h. fmul (at3 q b i h) (at3 k b j h)) [0..<6]))
                         (to_f32 (real 5 powr (- 1 / 2)))"
    by auto
  have "map (\<lambda>h. fmul (at3 q b i h) (at3 k b j h)) [0..<6]
      = map (\<lambda>h. fmul (if h = 0 then Fin a else Fin 0) (if h = 0 then Fin a else Fin 0)) [0..<6]"
    using assms(3-5) by (intro map_upt_cong) (simp add: ex_q [OF a q] ex_q [OF a k])
  then have "fsum (map (\<lambda>h. fmul (at3 q b i h) (at3 k b j h)) [0..<6]) = to_f32 (a * a)"
    by (simp only: ex_dot)
  moreover have "to_f32 (real 5 powr (- 1 / 2)) = Fin (5 powr (- 1 / 2))"
    using to_f32_inv_sqrt [OF C] by simp
  ultimately show ?thesis using el assms(3-5) by simp
qed

lemma ex_input_scores:
  assumes "scaled_scores ex_layer ex_layer (ex_input B T) = Inr S" and "b < B" "i < T" "j < T"
  shows "at3 S b i j = Fin (5 powr (- 1 / 2))"
proof -
  have a: "\<bar>1::real\<bar> \<le> FLT_MAX" using FLT_MAX_ge_1 by simp
  have "to_f32 (5 powr (- 1 / 2)) = Fin (5 powr (- 1 / 2))"
    using to_f32_inv_sqrt [of 5] by simp
  then show ?thesis
    using ex_scores [OF a assms(1) [unfolded ex_input_def] assms(2-4)] by simp
qed



section \<open>The scale of the scores\<close>

lemma inv_sqrt_5_6: "(6::real) powr (- 1 / 2) < 5 powr (- 1 / 2)"
  by (rule powr_less_mono2_neg) simp_all

text \<open>
  Claim C1. The claim is that every score is the query-key dot product times
  \<open>H powr (- 1 / 2)\<close>, with \<open>H\<close> the head size 6. The cell multiplies by
  \<open>C ** -0.5\<close>, with \<open>C\<close> the size of the input vectors, 5. On the input of the
  notebook's shape (4, 4, 5) whose dot products are all 1, the score at batch 0, query 0,
  key 0 is \<open>5 powr (- 1 / 2)\<close> and differs from the dot product times
  \<open>6 powr (- 1 / 2)\<close>.
\<close>

theorem scaled_scores_scale_is_input_width:
  "\<exists>W q k. scaled_scores ex_layer ex_layer (ex_input 4 4) = Inr W \<and>
     F_linear ex_layer (ex_input 4 4) = Inr q \<and> F_linear ex_layer (ex_input 4 4) = Inr k \<and>
     fsum (map (\<lambda>h. fmul (at3 q 0 0 h) (at3 k 0 0 h)) [0..<head_size]) = Fin 1 \<and>
     at3 W 0 0 0 = Fin (real n_embd powr (- 1 / 2)) \<and>
     at3 W 0 0 0 \<noteq> fmul (fsum (map (\<lambda>h. fmul (at3 q 0 0 h) (at3 k 0 0 h)) [0..<head_size]))
                        (to_f32 (real head_size powr (- 1 / 2)))"
proof -
  have C: "0 < (5::nat)" by simp
  have a: "\<bar>1::real\<bar> \<le> FLT_MAX" using FLT_MAX_ge_1 by simp
  from scaled_scores_char [OF ex_shapes(2) ex_shapes(3) ex_shapes(3) C, of 4 4]
  obtain W q k where
    W: "scaled_scores ex_layer ex_layer (ex_input 4 4) = Inr W" and
    q: "F_linear ex_layer (ex_input 4 4) = Inr q" and
    k: "F_linear ex_layer (ex_input 4 4) = Inr k"
    by blast
  have qk: "k = q" using q k by simp
  have qe: "at3 q 0 0 h = (if h = 0 then Fin 1 else Fin 0)" if "h < 6" for h
    using ex_q [OF a q [unfolded ex_input_def], of 0 0 h] that by simp
  have "map (\<lambda>h. fmul (at3 q 0 0 h) (at3 q 0 0 h)) [0..<6]
      = map (\<lambda>h. fmul (if h = 0 then Fin 1 else Fin 0) (if h = 0 then Fin 1 else Fin 0)) [0..<6]"
    by (intro map_upt_cong) (simp add: qe)
  then have dot: "fsum (map (\<lambda>h. fmul (at3 q 0 0 h) (at3 q 0 0 h)) [0..<6]) = Fin 1"
    by (simp only: ex_dot) simp
  have w: "at3 W 0 0 0 = Fin (5 powr (- 1 / 2))"
    using ex_input_scores [OF W, of 0 0 0] by simp
  have "to_f32 (real 6 powr (- 1 / 2)) = Fin (6 powr (- 1 / 2))"
    using to_f32_inv_sqrt [of 6] by simp
  then have "fmul (Fin 1) (to_f32 (real 6 powr (- 1 / 2))) = Fin (6 powr (- 1 / 2))"
    by simp
  moreover have "Fin (5 powr (- 1 / 2)) \<noteq> Fin ((6::real) powr (- 1 / 2))"
    using inv_sqrt_5_6 by simp
  ultimately have ne: "at3 W 0 0 0 \<noteq> fmul (Fin 1) (to_f32 (real 6 powr (- 1 / 2)))"
    using w by simp
  show ?thesis
    using W q k dot w ne unfolding qk
    by (intro exI [of _ W] exI [of _ q]) (simp add: head_size_def n_embd_def)
qed

section \<open>The attention weights\<close>





section \<open>Causality\<close>










section \<open>The shape of the output and the failures of the cell\<close>

text \<open>
  Claim C5. For an input of shape (B, T, C), with C > 0, and a head size \<open>hs\<close> the cell
  returns an output of shape (B, T, \<open>hs\<close>) whose rows have these lengths; for the shape
  (2, 4, 5) and head size 6 the output has shape (2, 4, 6).
\<close>

theorem attention_cell_shape:
  assumes x: "shape3 x = (B, T, C)" and C: "0 < C"
  shows "\<exists>out. attention_cell hs init_k init_q init_v x = Inr out \<and>
           shape3 out = (B, T, hs) \<and> wf3 out"
proof -
  from attention_char [OF x nn_Linear_shape [of C hs init_k] nn_Linear_shape [of C hs init_q]
      nn_Linear_shape [of C hs init_v] C]
  obtain out where
    "attention (nn_Linear C hs init_k) (nn_Linear C hs init_q) (nn_Linear C hs init_v) x = Inr out"
    "shape3 out = (B, T, hs)" "wf3 out"
    by blast
  then show ?thesis unfolding attention_cell_def by (simp add: x)
qed

theorem attention_cell_shape_witness:
  "shape3 (ex_input 2 4) = (2, 4, 5) \<and>
   (\<exists>out. attention_cell 6 ex_init ex_init ex_init (ex_input 2 4) = Inr out \<and>
      shape3 out = (2, 4, 6) \<and> wf3 out)"
proof -
  have C: "0 < (5::nat)" by simp
  show ?thesis
    using attention_cell_shape [where x = "ex_input 2 4" and hs = 6 and init_k = ex_init
        and init_q = ex_init and init_v = ex_init, OF ex_shapes(2) C]
    by simp
qed

lemma attention_layer_mismatch:
  assumes x: "shape3 x = (B, T, C)" and k: "shape2 key = (H, C')" and ne: "C' \<noteq> C"
  shows "attention key query val x = Inl RuntimeError"
proof -
  have "F_linear key x = Inl RuntimeError" using ne by (simp add: F_linear_def x k)
  then show ?thesis
    unfolding attention_def attention_weights_def scaled_scores_def by (simp add: x)
qed

text \<open>
  Claim C4, as the cell has it. The cell has no check of its own and no error named
  ShapeMismatch or InvalidDimension. A layer built for another width than the input's
  last dimension makes the library raise its \<^verbatim>\<open>RuntimeError\<close> at \<^verbatim>\<open>key(x)\<close>; the cell
  itself reads \<open>C\<close> off the input and builds the layers with it, so there the layers
  always fit. For every input shape with \<open>C > 0\<close> and every head size above 0,
  whatever \<open>B\<close> and \<open>T\<close>, also \<open>T = 0\<close>, the cell returns an output and raises
  nothing.
\<close>

theorem attention_cell_failure:
  assumes "shape3 x = (B, T, C)"
  shows "(shape2 key = (H, C') \<and> C' \<noteq> C \<longrightarrow> attention key query val x = Inl RuntimeError) \<and>
         (0 < C \<and> 0 < hs \<longrightarrow> (\<exists>out. attention_cell hs init_k init_q init_v x = Inr out))"
proof (intro conjI impI)
  assume "shape2 key = (H, C') \<and> C' \<noteq> C"
  with assms show "attention key query val x = Inl RuntimeError"
    by (auto intro: attention_layer_mismatch)
next
  assume "0 < C \<and> 0 < hs"
  then have C: "0 < C" by simp
  from attention_char [OF assms nn_Linear_shape [of C hs init_k] nn_Linear_shape [of C hs init_q]
      nn_Linear_shape [of C hs init_v] C]
  obtain out where
    "attention (nn_Linear C hs init_k) (nn_Linear C hs init_q) (nn_Linear C hs init_v) x = Inr out"
    by blast
  then show "\<exists>out. attention_cell hs init_k init_q init_v x = Inr out"
    unfolding attention_cell_def by (simp add: assms)
qed

theorem attention_cell_failure_witness:
  "attention (nn_Linear 3 6 ex_init) ex_layer ex_layer (ex_input 4 4) = Inl RuntimeError \<and>
   (\<exists>out. attention_cell 6 ex_init ex_init ex_init (ex_input 4 4) = Inr out) \<and>
   (\<exists>out. attention_cell 6 ex_init ex_init ex_init (ex_input 4 0) = Inr out)"
proof -
  show ?thesis
    using attention_cell_failure [where x = "ex_input 4 4" and hs = 6 and init_k = ex_init
        and init_q = ex_init and init_v = ex_init and key = "nn_Linear 3 6 ex_init"
        and H = 6 and C' = 3 and query = ex_layer and val = ex_layer, OF ex_shapes(2)]
      attention_cell_failure [where x = "ex_input 4 0" and hs = 6 and init_k = ex_init
        and init_q = ex_init and init_v = ex_init, OF ex_shapes(2)]
    by simp
qed

text \<open>
  Claim C4 as it is written asks for an error when \<open>T \<le> 0\<close>. On an empty sequence
  (\<open>T = 0\<close>) the cell returns an empty output instead.
\<close>

theorem attention_cell_empty_sequence:
  "shape3 (ex_input 1 0) = (1, 0, 5) \<and> wf3 (ex_input 1 0) \<and>
   attention_cell head_size ex_init ex_init ex_init (ex_input 1 0)
     = Inr \<lparr>shape3 = (1, 0, 6), rows3 = [[]]\<rparr>"
proof -
  have a: "attention_cell head_size ex_init ex_init ex_init (ex_input 1 0)
      = Inr \<lparr>shape3 = (1, 0, 6), rows3 = [[]]\<rparr>"
    by (simp add: attention_cell_def attention_def attention_weights_def scaled_scores_def
        F_linear_def matmul_def masked_fill_def softmax_def mul_scalar_def transpose3_def
        eq_zero_def tril_def ones_def pow_float_def nn_Linear_def ex_input_def ex_scaled_def
        tabulate3_def tabulate2_def head_size_def n_embd_def)
  show ?thesis using a by (simp add: ex_input_def ex_scaled_def n_embd_def)
qed

section \<open>The causal mask\<close>

text \<open>
  Claim C6. \<^verbatim>\<open>torch.tril(torch.ones(T,T))\<close> for \<open>T = 4\<close> is the 4 by 4 matrix with
  ones on and below the diagonal and zeros above it; for every \<open>T\<close> it has shape (T, T),
  holds 1 exactly at the positions with \<open>j \<le> i\<close> and 0 elsewhere, and the positions the
  cell fills with minus infinity, those of \<^verbatim>\<open>tril == 0\<close>, are exactly those with \<open>i < j\<close>.
\<close>

theorem causal_mask_lower_triangular:
  "rows2 (tril (ones 4 4)) = [[1, 0, 0, 0], [1, 1, 0, 0], [1, 1, 1, 0], [1, 1, 1, 1]] \<and>
   shape2 (tril (ones T T)) = (T, T) \<and> wf2 (tril (ones T T)) \<and>
   (\<forall>i<T. \<forall>j<T. at2 (tril (ones T T)) i j = (if j \<le> i then 1 else 0) \<and>
      at2 (eq_zero (tril (ones T T))) i j = (i < j))"
proof (intro conjI allI impI)
  show "rows2 (tril (ones 4 4)) = [[1, 0, 0, 0], [1, 1, 0, 0], [1, 1, 1, 0], [1, 1, 1, 1]]"
    by (simp add: tril_def ones_def tabulate2_def at2_def upt_conv_Cons)
  show "shape2 (tril (ones T T)) = (T, T)" by (simp add: tril_def ones_def)
  show "wf2 (tril (ones T T))" by (simp add: tril_def ones_def)
next
  fix i j assume "i < T" "j < T"
  then show "at2 (tril (ones T T)) i j = (if j \<le> i then 1 else 0)"
    by (simp add: tril_def ones_def)
next
  fix i j assume "i < T" "j < T"
  then show "at2 (eq_zero (tril (ones T T))) i j = (i < j)" by (rule mask_entry)
qed

theorem causal_mask_lower_triangular_witness:
  "at2 (tril (ones 4 4)) 2 1 = 1 \<and> at2 (tril (ones 4 4)) 2 2 = 1 \<and>
   at2 (tril (ones 4 4)) 1 2 = 0 \<and> at2 (eq_zero (tril (ones 4 4))) 1 2 \<and>
   \<not> at2 (eq_zero (tril (ones 4 4))) 2 1"
proof -
  note m = causal_mask_lower_triangular [of 4, THEN conjunct2, THEN conjunct2, THEN conjunct2,
      rule_format]
  have "at2 (tril (ones 4 4)) 2 1 = 1" using m [of 2 1] by simp
  moreover have "at2 (tril (ones 4 4)) 2 2 = 1" using m [of 2 2] by simp
  moreover have "at2 (tril (ones 4 4)) 1 2 = 0" using m [of 1 2] by simp
  moreover have "at2 (eq_zero (tril (ones 4 4))) 1 2" using m [of 1 2] by simp
  moreover have "\<not> at2 (eq_zero (tril (ones 4 4))) 2 1" using m [of 2 1] by simp
  ultimately show ?thesis by blast
qed

section \<open>A sequence of one position\<close>







section \<open>What the cell reads and what it assigns\<close>





end
